theory Spec2Isabelle
  imports Main "HOL-Library.Word"
begin

unbundle bit_operations_syntax

section \<open>The time-travel shim (src/pmd/preprocessing/timetravel.c)\<close>

text \<open>
  The shim is preloaded into a process and replaces \<open>time\<close>, \<open>gettimeofday\<close>,
  \<open>__gettimeofday\<close> and \<open>clock_gettime\<close>. Each replacement calls the genuine function
  of the C library, found with \<open>dlsym(RTLD_NEXT, name)\<close> and cached in a static function
  pointer, and then overwrites the seconds with the static variable \<open>travel\<close>.

  The model is for Linux with 64-bit \<open>time_t\<close>, \<open>long\<close> and pointers and 32-bit \<open>int\<close>
  and \<open>clockid_t\<close>, little-endian. Memory is a map from addresses to bytes; an 8-byte
  object at address \<open>a\<close> is the bytes \<open>a\<close> to \<open>a + 7\<close>, so two objects can overlap in
  part. Address 0 is \<open>NULL\<close>, and a store through it is a fault. A \<open>struct timeval\<close> or
  \<open>struct timespec\<close> at address \<open>p\<close> has \<open>tv_sec\<close> at \<open>p + 0\<close> and \<open>tv_usec\<close> or
  \<open>tv_nsec\<close> at \<open>p + 8\<close>.
\<close>

subsection \<open>Values, memory and the process state\<close>

type_synonym time_t = "64 word"
type_synonym c_int = "32 word"
type_synonym clockid_t = "32 word"
type_synonym addr = "64 word"

type_synonym memory = "addr \<Rightarrow> 8 word"

datatype error = Segfault

text \<open>Reading and writing an 8-byte object: the byte at \<open>a + k\<close> holds bits \<open>8k\<close> to
  \<open>8k + 7\<close> of the value. A write changes the eight bytes from \<open>a\<close> on and no other.\<close>

definition load64 :: "memory \<Rightarrow> addr \<Rightarrow> 64 word" where
  "load64 m a =
     ucast (m a) OR push_bit 8 (ucast (m (a + 1))) OR push_bit 16 (ucast (m (a + 2))) OR
     push_bit 24 (ucast (m (a + 3))) OR push_bit 32 (ucast (m (a + 4))) OR
     push_bit 40 (ucast (m (a + 5))) OR push_bit 48 (ucast (m (a + 6))) OR
     push_bit 56 (ucast (m (a + 7)))"

definition store64 :: "memory \<Rightarrow> addr \<Rightarrow> 64 word \<Rightarrow> memory" where
  "store64 m a v =
     (\<lambda>b. if unat (b - a) < 8 then ucast (drop_bit (8 * unat (b - a)) v) else m b)"

text \<open>
  What the genuine functions can read and change: the memory of the process and whatever
  lies outside it (the real clock, \<open>errno\<close>, the kernel), of an arbitrary type \<open>'x\<close>.
\<close>

type_synonym 'x world = "memory \<times> 'x"

text \<open>
  The environment of the shim, fixed for the lifetime of a process: what
  \<open>dlsym(RTLD_NEXT, name)\<close> returns (0 when the symbol is not found), and what calling the
  code at a non-null function pointer does for each of the three signatures. The genuine
  functions are arbitrary: nothing is assumed about what they return or write.
\<close>

record 'x env =
  dlsym_next :: "string \<Rightarrow> addr"
  code_time :: "addr \<Rightarrow> addr \<Rightarrow> 'x world \<Rightarrow> time_t \<times> 'x world"
  code_gettimeofday :: "addr \<Rightarrow> addr \<Rightarrow> addr \<Rightarrow> 'x world \<Rightarrow> c_int \<times> 'x world"
  code_clock_gettime :: "addr \<Rightarrow> clockid_t \<Rightarrow> addr \<Rightarrow> 'x world \<Rightarrow> c_int \<times> 'x world"

text \<open>
  The state of the process: the four static variables of the file (\<open>travel\<close> and the three
  cached function pointers), the memory and the outside world, the automatic variable
  \<open>res\<close> of \<open>time\<close> (the only local whose address is taken), and a log of the names passed
  to \<open>dlsym\<close>, kept only to count the lookups. The statics and \<open>res\<close> are not part of
  \<open>mem\<close>: no pointer of the caller reaches them.
\<close>

record 'x state =
  travel :: time_t
  libc_time :: addr
  libc_gettimeofday :: addr
  libc_clock_gettime :: addr
  mem :: memory
  outside :: 'x
  auto_res :: time_t
  lookups :: "string list"

text \<open>The state when the shim is loaded: \<open>static time_t travel = 1661140800\<close>, the
  function pointers \<open>NULL\<close>, no lookup done. \<open>res\<close> is assigned before it is read.\<close>

definition init_state :: "memory \<Rightarrow> 'x \<Rightarrow> 'x state" where
  "init_state m w =
     \<lparr>travel = 1661140800, libc_time = 0, libc_gettimeofday = 0, libc_clock_gettime = 0,
      mem = m, outside = w, auto_res = 0, lookups = []\<rparr>"

text \<open>\<open>CLOCK_REALTIME\<close> and \<open>CLOCK_MONOTONIC\<close> of the Linux \<open><time.h>\<close>.\<close>

definition CLOCK_REALTIME :: clockid_t where
  "CLOCK_REALTIME = 0"

definition CLOCK_MONOTONIC :: clockid_t where
  "CLOCK_MONOTONIC = 1"

subsection \<open>Pointers the shim stores through\<close>

text \<open>
  A \<open>time_t *\<close> handed to \<open>set_travel\<close> is an address of the caller's memory or the
  address of the local \<open>res\<close> of \<open>time\<close>, which is never null.
  \<open>&p->tv_sec\<close> is compiled to \<open>p + 0\<close>, so it is null exactly when \<open>p\<close> is.
\<close>

datatype ptr = Addr addr | Auto_res

definition tv_sec_ptr :: "addr \<Rightarrow> ptr" where
  "tv_sec_ptr p = Addr (p + 0)"

definition tv_subsec_addr :: "addr \<Rightarrow> addr" where
  "tv_subsec_addr p = p + 8"

definition store :: "ptr \<Rightarrow> time_t \<Rightarrow> 'x state \<Rightarrow> error + 'x state" where
  "store p v s =
     (case p of
        Addr a \<Rightarrow> if a = 0 then Inl Segfault else Inr (s\<lparr>mem := store64 (mem s) a v\<rparr>)
      | Auto_res \<Rightarrow> Inr (s\<lparr>auto_res := v\<rparr>))"

subsection \<open>The library calls\<close>

text \<open>\<open>dlsym(RTLD_NEXT, name)\<close>, with the lookup logged.\<close>

definition dlsym :: "'x env \<Rightarrow> string \<Rightarrow> 'x state \<Rightarrow> addr \<times> 'x state" where
  "dlsym E name s = (dlsym_next E name, s\<lparr>lookups := lookups s @ [name]\<rparr>)"

text \<open>A call through a function pointer: a fault when it is null, else the code there.\<close>

definition call_time ::
  "'x env \<Rightarrow> addr \<Rightarrow> addr \<Rightarrow> 'x state \<Rightarrow> error + (time_t \<times> 'x state)" where
  "call_time E f x s =
     (if f = 0 then Inl Segfault
      else (case code_time E f x (mem s, outside s) of
              (r, m, w) \<Rightarrow> Inr (r, s\<lparr>mem := m, outside := w\<rparr>)))"

definition call_gettimeofday ::
  "'x env \<Rightarrow> addr \<Rightarrow> addr \<Rightarrow> addr \<Rightarrow> 'x state \<Rightarrow> error + (c_int \<times> 'x state)" where
  "call_gettimeofday E f x y s =
     (if f = 0 then Inl Segfault
      else (case code_gettimeofday E f x y (mem s, outside s) of
              (r, m, w) \<Rightarrow> Inr (r, s\<lparr>mem := m, outside := w\<rparr>)))"

definition call_clock_gettime ::
  "'x env \<Rightarrow> addr \<Rightarrow> clockid_t \<Rightarrow> addr \<Rightarrow> 'x state \<Rightarrow> error + (c_int \<times> 'x state)" where
  "call_clock_gettime E f x y s =
     (if f = 0 then Inl Segfault
      else (case code_clock_gettime E f x y (mem s, outside s) of
              (r, m, w) \<Rightarrow> Inr (r, s\<lparr>mem := m, outside := w\<rparr>)))"

subsection \<open>The functions of the file\<close>

definition set_travel :: "ptr \<Rightarrow> 'x state \<Rightarrow> error + 'x state" where
  "set_travel seconds s =
     (if seconds = Addr 0 then Inr s else store seconds (travel s) s)"

definition real_time ::
  "'x env \<Rightarrow> addr \<Rightarrow> 'x state \<Rightarrow> error + (time_t \<times> 'x state)" where
  "real_time E x s =
     (let s1 = (if libc_time s = 0
                then case dlsym E ''time'' s of (h, s') \<Rightarrow> s'\<lparr>libc_time := h\<rparr>
                else s)
      in call_time E (libc_time s1) x s1)"

definition time ::
  "'x env \<Rightarrow> addr \<Rightarrow> 'x state \<Rightarrow> error + (time_t \<times> 'x state)" where
  "time E x s =
     (case real_time E x s of
        Inl e \<Rightarrow> Inl e
      | Inr (r, s1) \<Rightarrow>
          (case set_travel (Addr x) (s1\<lparr>auto_res := r\<rparr>) of
             Inl e \<Rightarrow> Inl e
           | Inr s2 \<Rightarrow>
               (case set_travel Auto_res s2 of
                  Inl e \<Rightarrow> Inl e
                | Inr s3 \<Rightarrow> Inr (auto_res s3, s3))))"

text \<open>\<open>real_gettimeofday\<close> is declared to return \<open>time_t\<close>: the \<open>int\<close> of the genuine
  function is sign-extended, and \<open>__gettimeofday\<close> truncates it back to \<open>int\<close>.\<close>

definition real_gettimeofday ::
  "'x env \<Rightarrow> addr \<Rightarrow> addr \<Rightarrow> 'x state \<Rightarrow> error + (time_t \<times> 'x state)" where
  "real_gettimeofday E x y s =
     (let s1 = (if libc_gettimeofday s = 0
                then case dlsym E ''gettimeofday'' s of (h, s') \<Rightarrow> s'\<lparr>libc_gettimeofday := h\<rparr>
                else s)
      in (case call_gettimeofday E (libc_gettimeofday s1) x y s1 of
            Inl e \<Rightarrow> Inl e
          | Inr (r, s2) \<Rightarrow> Inr (scast r, s2)))"

definition dunder_gettimeofday ::
  "'x env \<Rightarrow> addr \<Rightarrow> addr \<Rightarrow> 'x state \<Rightarrow> error + (c_int \<times> 'x state)" where
  "dunder_gettimeofday E x y s =
     (case real_gettimeofday E x y s of
        Inl e \<Rightarrow> Inl e
      | Inr (r, s1) \<Rightarrow>
          (let res = (ucast r :: c_int)
           in if res \<noteq> 0 then Inr (res, s1)
              else (case set_travel (tv_sec_ptr x) s1 of
                      Inl e \<Rightarrow> Inl e
                    | Inr s2 \<Rightarrow> Inr (0, s2))))"

definition gettimeofday ::
  "'x env \<Rightarrow> addr \<Rightarrow> addr \<Rightarrow> 'x state \<Rightarrow> error + (c_int \<times> 'x state)" where
  "gettimeofday E x y s = dunder_gettimeofday E x y s"

definition clock_gettime ::
  "'x env \<Rightarrow> clockid_t \<Rightarrow> addr \<Rightarrow> 'x state \<Rightarrow> error + (c_int \<times> 'x state)" where
  "clock_gettime E x y s =
     (let s1 = (if libc_clock_gettime s = 0
                then case dlsym E ''clock_gettime'' s of (h, s') \<Rightarrow> s'\<lparr>libc_clock_gettime := h\<rparr>
                else s)
      in case call_clock_gettime E (libc_clock_gettime s1) x y s1 of
           Inl e \<Rightarrow> Inl e
         | Inr (res, s2) \<Rightarrow>
             if res \<noteq> 0 \<or> CLOCK_REALTIME \<noteq> x then Inr (res, s2)
             else (case set_travel (tv_sec_ptr y) s2 of
                     Inl e \<Rightarrow> Inl e
                   | Inr s3 \<Rightarrow> Inr (0, s3)))"

subsection \<open>A process lifetime\<close>

text \<open>
  The host program calls the exported functions in any order (\<open>real_time\<close> and
  \<open>real_gettimeofday\<close> are exported too), and between calls it changes its memory and
  the world moves on (\<open>Host\<close>). \<open>run\<close> returns the result and the state after every call.
\<close>

datatype 'x call =
    Call_time addr
  | Call_dunder_gettimeofday addr addr
  | Call_gettimeofday addr addr
  | Call_clock_gettime clockid_t addr
  | Call_real_time addr
  | Call_real_gettimeofday addr addr
  | Host "'x world \<Rightarrow> 'x world"

datatype retval = Ret_time time_t | Ret_int c_int | Ret_void

definition ret :: "('a \<Rightarrow> retval) \<Rightarrow> error + ('a \<times> 's) \<Rightarrow> error + (retval \<times> 's)" where
  "ret k r = (case r of Inl e \<Rightarrow> Inl e | Inr (v, s) \<Rightarrow> Inr (k v, s))"

fun exec :: "'x env \<Rightarrow> 'x call \<Rightarrow> 'x state \<Rightarrow> error + (retval \<times> 'x state)" where
  "exec E (Call_time x) s = ret Ret_time (time E x s)"
| "exec E (Call_dunder_gettimeofday x y) s = ret Ret_int (dunder_gettimeofday E x y s)"
| "exec E (Call_gettimeofday x y) s = ret Ret_int (gettimeofday E x y s)"
| "exec E (Call_clock_gettime x y) s = ret Ret_int (clock_gettime E x y s)"
| "exec E (Call_real_time x) s = ret Ret_time (real_time E x s)"
| "exec E (Call_real_gettimeofday x y) s = ret Ret_time (real_gettimeofday E x y s)"
| "exec E (Host f) s =
     (case f (mem s, outside s) of (m, w) \<Rightarrow> Inr (Ret_void, s\<lparr>mem := m, outside := w\<rparr>))"

fun run :: "'x env \<Rightarrow> 'x call list \<Rightarrow> 'x state \<Rightarrow> error + (retval \<times> 'x state) list" where
  "run E [] s = Inr []"
| "run E (c # cs) s =
     (case exec E c s of
        Inl e \<Rightarrow> Inl e
      | Inr (r, s') \<Rightarrow>
          (case run E cs s' of
             Inl e \<Rightarrow> Inl e
           | Inr tr \<Rightarrow> Inr ((r, s') # tr)))"

text \<open>The state at the end of a run that started in \<open>s\<close>.\<close>

definition final :: "'x state \<Rightarrow> (retval \<times> 'x state) list \<Rightarrow> 'x state" where
  "final s tr = (if tr = [] then s else snd (last tr))"

subsection \<open>What a caller observes\<close>



text \<open>The result of a call together with the 8-byte object at one address of the state it
  leaves.\<close>

definition cell_after :: "addr \<Rightarrow> error + ('a \<times> 'x state) \<Rightarrow> error + ('a \<times> 64 word)" where
  "cell_after a r = (case r of Inl e \<Rightarrow> Inl e | Inr (v, s) \<Rightarrow> Inr (v, load64 (mem s) a))"

text \<open>
  The static function pointer and the symbol name each exported function resolves:
  \<open>time\<close> and \<open>real_time\<close> share \<open>libc_time\<close>; \<open>gettimeofday\<close>, \<open>__gettimeofday\<close> and
  \<open>real_gettimeofday\<close> share \<open>libc_gettimeofday\<close>, looked up as \<open>"gettimeofday"\<close>;
  \<open>clock_gettime\<close> looks up its own name (\<open>__func__\<close>).
\<close>

fun resolver :: "'x call \<Rightarrow> (('x state \<Rightarrow> addr) \<times> string) option" where
  "resolver (Call_time x) = Some (libc_time, ''time'')"
| "resolver (Call_real_time x) = Some (libc_time, ''time'')"
| "resolver (Call_dunder_gettimeofday x y) = Some (libc_gettimeofday, ''gettimeofday'')"
| "resolver (Call_gettimeofday x y) = Some (libc_gettimeofday, ''gettimeofday'')"
| "resolver (Call_real_gettimeofday x y) = Some (libc_gettimeofday, ''gettimeofday'')"
| "resolver (Call_clock_gettime x y) = Some (libc_clock_gettime, ''clock_gettime'')"
| "resolver (Host f) = None"

text \<open>The cache and the log agree: a pointer is set exactly when its name was looked
  up, and no name was looked up twice.\<close>

definition cache_inv :: "'x state \<Rightarrow> bool" where
  "cache_inv s \<longleftrightarrow>
     distinct (lookups s) \<and>
     set (lookups s) \<subseteq> {''time'', ''gettimeofday'', ''clock_gettime''} \<and>
     (libc_time s \<noteq> 0) = (''time'' \<in> set (lookups s)) \<and>
     (libc_gettimeofday s \<noteq> 0) = (''gettimeofday'' \<in> set (lookups s)) \<and>
     (libc_clock_gettime s \<noteq> 0) = (''clock_gettime'' \<in> set (lookups s))"

subsection \<open>A C library to run the shim against\<close>

text \<open>
  The real clock is a count of seconds that every wall-clock query advances by one.
  \<open>time\<close> stores through a non-null argument; \<open>gettimeofday\<close> fills the record, then
  the timezone (\<open>tz_minuteswest = -60\<close>, \<open>tz_dsttime = 0\<close>); \<open>clock_gettime\<close> knows
  \<open>CLOCK_REALTIME\<close> and \<open>CLOCK_MONOTONIC\<close> and fails with -1 on any other clock.
\<close>

definition libc_env :: "nat env" where
  "libc_env =
     \<lparr>dlsym_next = (\<lambda>n. if n = ''time'' then 4096
                        else if n = ''gettimeofday'' then 8192
                        else if n = ''clock_gettime'' then 12288 else 0),
      code_time = (\<lambda>f x (m, w).
         (of_nat w, if x = 0 then m else store64 m x (of_nat w), Suc w)),
      code_gettimeofday = (\<lambda>f x y (m, w).
         (0, (let m1 = (if x = 0 then m
                        else store64 (store64 m x (of_nat w)) (x + 8) 999999)
              in if y = 0 then m1 else store64 m1 y 4294967236), Suc w)),
      code_clock_gettime = (\<lambda>f x y (m, w).
         if x = 0
         then (0, if y = 0 then m
                  else store64 (store64 m y (of_nat w)) (y + 8) 123456789, Suc w)
         else if x = 1
         then (0, if y = 0 then m else store64 (store64 m y 77) (y + 8) 5, w)
         else (- 1, m, w))\<rparr>"

text \<open>The same library on a system whose \<open>time\<close> fails: it returns \<open>(time_t) -1\<close> and
  stores nothing.\<close>

definition failing_env :: "nat env" where
  "failing_env = libc_env\<lparr>code_time := (\<lambda>f x (m, w). (- 1, m, w))\<rparr>"

text \<open>A freshly loaded process: zeroed memory, the real clock at 1700000000.\<close>

definition fresh :: "nat state" where
  "fresh = init_state (\<lambda>a. 0) 1700000000"

text \<open>
  A host program: it asks for the time, an hour passes while it writes to its memory, then
  it reads the wall clock and the monotonic clock, the time of day through both entry
  points, and the time again, this time into a variable.
\<close>

definition demo :: "nat call list" where
  "demo =
     [Call_time 0,
      Host (\<lambda>(m, w). (store64 m 64 5, w + 3600)),
      Call_clock_gettime CLOCK_REALTIME 64,
      Call_clock_gettime CLOCK_MONOTONIC 96,
      Call_gettimeofday 128 0,
      Call_dunder_gettimeofday 160 192,
      Call_time 256]"

section \<open>Properties\<close>

subsection \<open>Basic facts\<close>

lemma ucast_scast_int: "(ucast (scast (r :: c_int) :: time_t) :: c_int) = r"
  by (rule bit_word_eqI) (auto simp add: bit_simps)

text \<open>Bytes: a value written is the value read; a write leaves every byte outside its
  eight bytes, so every 8-byte object apart from them, as it was.\<close>

lemma store64_outside: "8 \<le> unat (b - a) \<Longrightarrow> store64 m a v b = m b"
  by (simp add: store64_def)

lemma apart_off:
  fixes a b k :: addr
  assumes ba: "8 \<le> unat (b - a)" and ab: "8 \<le> unat (a - b)" and k: "unat k < 8"
  shows "8 \<le> unat (b + k - a)"
proof -
  have e: "(a - b) + (b - a) = 0" by simp
  note unat_plus_if' [of "a - b" "b - a", unfolded e]
  with ab ba have sum: "unat (a - b) + unat (b - a) = 2 ^ 64"
    by (simp split: if_splits)
  have f: "b + k - a = (b - a) + k" by simp
  from sum ab k have lt: "unat (b - a) + unat k < 2 ^ 64" by simp
  from unat_plus_if' [of "b - a" k] lt have "unat ((b - a) + k) = unat (b - a) + unat k"
    by simp
  with ba show ?thesis unfolding f by simp
qed

lemma load64_store64_apart:
  assumes "8 \<le> unat (b - a)" and "8 \<le> unat (a - b)"
  shows "load64 (store64 m a v) b = load64 m b"
proof -
  have "8 \<le> unat (b + 1 - a)" by (rule apart_off [OF assms]) simp
  moreover have "8 \<le> unat (b + 2 - a)" by (rule apart_off [OF assms]) simp
  moreover have "8 \<le> unat (b + 3 - a)" by (rule apart_off [OF assms]) simp
  moreover have "8 \<le> unat (b + 4 - a)" by (rule apart_off [OF assms]) simp
  moreover have "8 \<le> unat (b + 5 - a)" by (rule apart_off [OF assms]) simp
  moreover have "8 \<le> unat (b + 6 - a)" by (rule apart_off [OF assms]) simp
  moreover have "8 \<le> unat (b + 7 - a)" by (rule apart_off [OF assms]) simp
  ultimately have "store64 m a v b = m b" "store64 m a v (b + 1) = m (b + 1)"
    "store64 m a v (b + 2) = m (b + 2)" "store64 m a v (b + 3) = m (b + 3)"
    "store64 m a v (b + 4) = m (b + 4)" "store64 m a v (b + 5) = m (b + 5)"
    "store64 m a v (b + 6) = m (b + 6)" "store64 m a v (b + 7) = m (b + 7)"
    using assms(1) by (simp_all only: store64_outside)
  then show ?thesis
    by (simp only: load64_def)
qed



lemma byte_bit:
  "bit (push_bit j (ucast (ucast (drop_bit j v :: 64 word) :: 8 word)) :: 64 word) n \<longleftrightarrow>
     j \<le> n \<and> n < j + 8 \<and> n < 64 \<and> bit v n"
  by (auto simp add: bit_simps)

lemma byte0_bit:
  "bit (ucast (ucast (v :: 64 word) :: 8 word) :: 64 word) n \<longleftrightarrow> n < 8 \<and> bit v n"
  by (auto simp add: bit_simps dest: bit_imp_le_length)

lemma bytes_value:
  fixes v :: "64 word"
  shows "ucast (ucast v :: 8 word) OR push_bit 8 (ucast (ucast (drop_bit 8 v) :: 8 word)) OR
        push_bit 16 (ucast (ucast (drop_bit 16 v) :: 8 word)) OR
        push_bit 24 (ucast (ucast (drop_bit 24 v) :: 8 word)) OR
        push_bit 32 (ucast (ucast (drop_bit 32 v) :: 8 word)) OR
        push_bit 40 (ucast (ucast (drop_bit 40 v) :: 8 word)) OR
        push_bit 48 (ucast (ucast (drop_bit 48 v) :: 8 word)) OR
        push_bit 56 (ucast (ucast (drop_bit 56 v) :: 8 word)) = v"
  (is "?w = v")
proof (rule bit_word_eqI)
  fix n assume "n < LENGTH(64)"
  then have r: "n < 8 \<or> (8 \<le> n \<and> n < 8 + 8 \<and> n < 64) \<or> (16 \<le> n \<and> n < 16 + 8 \<and> n < 64) \<or>
      (24 \<le> n \<and> n < 24 + 8 \<and> n < 64) \<or> (32 \<le> n \<and> n < 32 + 8 \<and> n < 64) \<or>
      (40 \<le> n \<and> n < 40 + 8 \<and> n < 64) \<or> (48 \<le> n \<and> n < 48 + 8 \<and> n < 64) \<or>
      (56 \<le> n \<and> n < 56 + 8 \<and> n < 64)"
    by auto
  have e: "bit ?w n \<longleftrightarrow>
      (n < 8 \<and> bit v n) \<or> (8 \<le> n \<and> n < 8 + 8 \<and> n < 64 \<and> bit v n) \<or>
      (16 \<le> n \<and> n < 16 + 8 \<and> n < 64 \<and> bit v n) \<or>
      (24 \<le> n \<and> n < 24 + 8 \<and> n < 64 \<and> bit v n) \<or>
      (32 \<le> n \<and> n < 32 + 8 \<and> n < 64 \<and> bit v n) \<or>
      (40 \<le> n \<and> n < 40 + 8 \<and> n < 64 \<and> bit v n) \<or>
      (48 \<le> n \<and> n < 48 + 8 \<and> n < 64 \<and> bit v n) \<or>
      (56 \<le> n \<and> n < 56 + 8 \<and> n < 64 \<and> bit v n)"
    by (simp only: bit_or_iff byte_bit byte0_bit)
  from r show "bit ?w n = bit v n"
    unfolding e by blast
qed

lemma store64_inside:
  "unat k < 8 \<Longrightarrow> store64 m a v (a + k) = ucast (drop_bit (8 * unat k) v)"
  by (simp add: store64_def)

lemma load64_store64_same: "load64 (store64 m a v) a = v"
proof -
  have "store64 m a v a = ucast v"
    using store64_inside [of 0 m a v] by simp
  moreover have "store64 m a v (a + 1) = ucast (drop_bit 8 v)"
    using store64_inside [of 1 m a v] by simp
  moreover have "store64 m a v (a + 2) = ucast (drop_bit 16 v)"
    using store64_inside [of 2 m a v] by simp
  moreover have "store64 m a v (a + 3) = ucast (drop_bit 24 v)"
    using store64_inside [of 3 m a v] by simp
  moreover have "store64 m a v (a + 4) = ucast (drop_bit 32 v)"
    using store64_inside [of 4 m a v] by simp
  moreover have "store64 m a v (a + 5) = ucast (drop_bit 40 v)"
    using store64_inside [of 5 m a v] by simp
  moreover have "store64 m a v (a + 6) = ucast (drop_bit 48 v)"
    using store64_inside [of 6 m a v] by simp
  moreover have "store64 m a v (a + 7) = ucast (drop_bit 56 v)"
    using store64_inside [of 7 m a v] by simp
  ultimately show ?thesis
    by (simp only: load64_def bytes_value)
qed


lemma load64_store64_subsec:
  "load64 (store64 m p v) (tv_subsec_addr p) = load64 m (tv_subsec_addr p)"
  by (rule load64_store64_apart) (simp_all add: tv_subsec_addr_def)

lemma load64_zero: "load64 (\<lambda>a. 0) a = 0"
  by (simp add: load64_def)

lemmas byte_simps = load64_store64_same load64_store64_apart load64_zero

lemma set_travel_Addr:
  "set_travel (Addr a) s = Inr (if a = 0 then s else s\<lparr>mem := store64 (mem s) a (travel s)\<rparr>)"
  by (simp add: set_travel_def store_def)

lemma set_travel_Auto_res: "set_travel Auto_res s = Inr (s\<lparr>auto_res := travel s\<rparr>)"
  by (simp add: set_travel_def store_def)

lemma set_travel_total: "\<exists>s'. set_travel p s = Inr s'"
  by (cases p) (simp_all add: set_travel_Addr set_travel_Auto_res)

text \<open>The three proxies to the genuine functions, by cases on the cached pointer.\<close>

lemma real_time_Inr:
  assumes "real_time E x s = Inr (g, s1)"
  shows "libc_time s1 \<noteq> 0"
    and "(g, mem s1, outside s1) = code_time E (libc_time s1) x (mem s, outside s)"
    and "travel s1 = travel s" and "auto_res s1 = auto_res s"
    and "libc_gettimeofday s1 = libc_gettimeofday s"
    and "libc_clock_gettime s1 = libc_clock_gettime s"
    and "libc_time s \<noteq> 0 \<Longrightarrow> libc_time s1 = libc_time s \<and> lookups s1 = lookups s"
    and "libc_time s = 0 \<Longrightarrow>
           libc_time s1 = dlsym_next E ''time'' \<and> lookups s1 = lookups s @ [''time'']"
  using assms
  by (auto simp add: real_time_def call_time_def dlsym_def Let_def
      split: if_splits prod.splits)

lemma real_time_Inl:
  "real_time E x s = Inl e \<longleftrightarrow> libc_time s = 0 \<and> dlsym_next E ''time'' = 0"
  by (cases e) (auto simp add: real_time_def call_time_def dlsym_def Let_def
      split: if_splits prod.splits)

lemma real_gettimeofday_Inr:
  assumes "real_gettimeofday E x y s = Inr (g, s1)"
  shows "libc_gettimeofday s1 \<noteq> 0"
    and "\<exists>r. g = scast r \<and>
           (r, mem s1, outside s1) = code_gettimeofday E (libc_gettimeofday s1) x y (mem s, outside s)"
    and "travel s1 = travel s" and "auto_res s1 = auto_res s"
    and "libc_time s1 = libc_time s"
    and "libc_clock_gettime s1 = libc_clock_gettime s"
    and "libc_gettimeofday s \<noteq> 0 \<Longrightarrow>
           libc_gettimeofday s1 = libc_gettimeofday s \<and> lookups s1 = lookups s"
    and "libc_gettimeofday s = 0 \<Longrightarrow>
           libc_gettimeofday s1 = dlsym_next E ''gettimeofday'' \<and>
           lookups s1 = lookups s @ [''gettimeofday'']"
  using assms
  by (auto simp add: real_gettimeofday_def call_gettimeofday_def dlsym_def Let_def
      split: if_splits prod.splits)

lemma real_gettimeofday_Inl:
  "real_gettimeofday E x y s = Inl e \<longleftrightarrow>
     libc_gettimeofday s = 0 \<and> dlsym_next E ''gettimeofday'' = 0"
  by (cases e) (auto simp add: real_gettimeofday_def call_gettimeofday_def dlsym_def Let_def
      split: if_splits prod.splits)

text \<open>The interceptors in terms of the proxies: \<open>set_travel\<close> never faults.\<close>

lemma time_unfold:
  "time E x s =
     (case real_time E x s of
        Inl e \<Rightarrow> Inl e
      | Inr (g, s1) \<Rightarrow>
          Inr (travel s1,
               (if x = 0 then s1 else s1\<lparr>mem := store64 (mem s1) x (travel s1)\<rparr>)
                 \<lparr>auto_res := travel s1\<rparr>))"
  by (simp add: time_def set_travel_Addr set_travel_Auto_res split: sum.splits prod.splits)

lemma dunder_gettimeofday_unfold:
  "dunder_gettimeofday E x y s =
     (case real_gettimeofday E x y s of
        Inl e \<Rightarrow> Inl e
      | Inr (g, s1) \<Rightarrow>
          if (ucast g :: c_int) \<noteq> 0 then Inr (ucast g, s1)
          else Inr (0, if x = 0 then s1 else s1\<lparr>mem := store64 (mem s1) x (travel s1)\<rparr>))"
  by (simp add: dunder_gettimeofday_def tv_sec_ptr_def set_travel_Addr Let_def
      split: sum.splits prod.splits)

lemma clock_gettime_Inr:
  assumes "clock_gettime E x y s = Inr (r, s')"
  shows "libc_clock_gettime s' \<noteq> 0"
    and "\<exists>m w. (r, m, w) = code_clock_gettime E (libc_clock_gettime s') x y (mem s, outside s) \<and>
           outside s' = w \<and>
           mem s' = (if r = 0 \<and> x = CLOCK_REALTIME \<and> y \<noteq> 0 then store64 m y (travel s) else m)"
    and "travel s' = travel s" and "auto_res s' = auto_res s"
    and "libc_time s' = libc_time s"
    and "libc_gettimeofday s' = libc_gettimeofday s"
    and "libc_clock_gettime s \<noteq> 0 \<Longrightarrow>
           libc_clock_gettime s' = libc_clock_gettime s \<and> lookups s' = lookups s"
    and "libc_clock_gettime s = 0 \<Longrightarrow>
           libc_clock_gettime s' = dlsym_next E ''clock_gettime'' \<and>
           lookups s' = lookups s @ [''clock_gettime'']"
  using assms
  by (auto simp add: clock_gettime_def call_clock_gettime_def dlsym_def Let_def
      tv_sec_ptr_def set_travel_Addr split: if_splits prod.splits)

lemma clock_gettime_Inl:
  "clock_gettime E x y s = Inl e \<longleftrightarrow>
     libc_clock_gettime s = 0 \<and> dlsym_next E ''clock_gettime'' = 0"
  by (cases e) (auto simp add: clock_gettime_def call_clock_gettime_def dlsym_def Let_def
      tv_sec_ptr_def set_travel_Addr split: if_splits prod.splits)


lemma time_Inr:
  assumes "time E x s = Inr (r, s')"
  shows "r = travel s"
    and "\<exists>g s1. real_time E x s = Inr (g, s1) \<and>
           s' = (if x = 0 then s1 else s1\<lparr>mem := store64 (mem s1) x (travel s)\<rparr>)\<lparr>auto_res := travel s\<rparr>"
  using assms
  by (auto simp add: time_unfold split: sum.splits prod.splits if_splits
      dest: real_time_Inr(3))

lemma dunder_gettimeofday_Inr:
  assumes "dunder_gettimeofday E x y s = Inr (r, s')"
  shows "\<exists>g s1. real_gettimeofday E x y s = Inr (g, s1) \<and> r = ucast g \<and>
           s' = (if r = 0 \<and> x \<noteq> 0 then s1\<lparr>mem := store64 (mem s1) x (travel s)\<rparr> else s1)"
  using assms
  by (auto simp add: dunder_gettimeofday_unfold split: sum.splits prod.splits if_splits
      dest: real_gettimeofday_Inr(3))

text \<open>One call of the host program: what it does to the statics and the log.\<close>

lemma exec_statics:
  assumes "exec E c s = Inr (r, s')"
  shows "travel s' = travel s"
    and "libc_time s \<noteq> 0 \<Longrightarrow> libc_time s' = libc_time s"
    and "libc_gettimeofday s \<noteq> 0 \<Longrightarrow> libc_gettimeofday s' = libc_gettimeofday s"
    and "libc_clock_gettime s \<noteq> 0 \<Longrightarrow> libc_clock_gettime s' = libc_clock_gettime s"
    and "\<exists>new. lookups s' = lookups s @ new"
proof -
  have "travel s' = travel s \<and>
        (libc_time s \<noteq> 0 \<longrightarrow> libc_time s' = libc_time s) \<and>
        (libc_gettimeofday s \<noteq> 0 \<longrightarrow> libc_gettimeofday s' = libc_gettimeofday s) \<and>
        (libc_clock_gettime s \<noteq> 0 \<longrightarrow> libc_clock_gettime s' = libc_clock_gettime s) \<and>
        (\<exists>new. lookups s' = lookups s @ new)"
  proof (cases c)
    case (Call_time x)
    with assms obtain g s1 where g: "real_time E x s = Inr (g, s1)"
      and s': "s' = (if x = 0 then s1 else s1\<lparr>mem := store64 (mem s1) x (travel s)\<rparr>)\<lparr>auto_res := travel s\<rparr>"
      by (auto simp add: ret_def split: sum.splits dest: time_Inr(2))
    from real_time_Inr [OF g] s' show ?thesis
      by (cases "libc_time s = 0") auto
  next
    case (Call_real_time x)
    with assms have g: "real_time E x s = Inr (case r of Ret_time t \<Rightarrow> t, s')"
      by (auto simp add: ret_def split: sum.splits)
    from real_time_Inr [OF g] show ?thesis
      by (cases "libc_time s = 0") auto
  next
    case (Call_dunder_gettimeofday x y)
    with assms obtain r' where "dunder_gettimeofday E x y s = Inr (r', s')"
      by (auto simp add: ret_def split: sum.splits)
    then obtain g s1 where g: "real_gettimeofday E x y s = Inr (g, s1)"
      and s': "s' = (if r' = 0 \<and> x \<noteq> 0 then s1\<lparr>mem := store64 (mem s1) x (travel s)\<rparr> else s1)"
      by (auto dest: dunder_gettimeofday_Inr)
    from real_gettimeofday_Inr [OF g] s' show ?thesis
      by (cases "libc_gettimeofday s = 0") auto
  next
    case (Call_gettimeofday x y)
    with assms obtain r' where "dunder_gettimeofday E x y s = Inr (r', s')"
      by (auto simp add: ret_def gettimeofday_def split: sum.splits)
    then obtain g s1 where g: "real_gettimeofday E x y s = Inr (g, s1)"
      and s': "s' = (if r' = 0 \<and> x \<noteq> 0 then s1\<lparr>mem := store64 (mem s1) x (travel s)\<rparr> else s1)"
      by (auto dest: dunder_gettimeofday_Inr)
    from real_gettimeofday_Inr [OF g] s' show ?thesis
      by (cases "libc_gettimeofday s = 0") auto
  next
    case (Call_real_gettimeofday x y)
    with assms have g: "real_gettimeofday E x y s = Inr (case r of Ret_time t \<Rightarrow> t, s')"
      by (auto simp add: ret_def split: sum.splits)
    from real_gettimeofday_Inr [OF g] show ?thesis
      by (cases "libc_gettimeofday s = 0") auto
  next
    case (Call_clock_gettime x y)
    with assms obtain r' where g: "clock_gettime E x y s = Inr (r', s')"
      by (auto simp add: ret_def split: sum.splits)
    from clock_gettime_Inr [OF g] show ?thesis
      by (cases "libc_clock_gettime s = 0") auto
  next
    case (Host f)
    with assms show ?thesis
      by (auto split: prod.splits)
  qed
  then show "travel s' = travel s"
    and "libc_time s \<noteq> 0 \<Longrightarrow> libc_time s' = libc_time s"
    and "libc_gettimeofday s \<noteq> 0 \<Longrightarrow> libc_gettimeofday s' = libc_gettimeofday s"
    and "libc_clock_gettime s \<noteq> 0 \<Longrightarrow> libc_clock_gettime s' = libc_clock_gettime s"
    and "\<exists>new. lookups s' = lookups s @ new"
    by blast+
qed


lemma dunder_gettimeofday_code:
  assumes "dunder_gettimeofday E x y s = Inr (r, s')"
  shows "\<exists>m w. (r, m, w) = code_gettimeofday E (libc_gettimeofday s') x y (mem s, outside s) \<and>
           outside s' = w \<and>
           mem s' = (if r = 0 \<and> x \<noteq> 0 then store64 m x (travel s) else m)"
proof -
  from assms obtain g s1 where g: "real_gettimeofday E x y s = Inr (g, s1)"
    and r: "r = ucast g"
    and s': "s' = (if r = 0 \<and> x \<noteq> 0 then s1\<lparr>mem := store64 (mem s1) x (travel s)\<rparr> else s1)"
    by (auto dest: dunder_gettimeofday_Inr)
  from real_gettimeofday_Inr(2) [OF g] obtain r0 where "g = scast r0"
    and c: "(r0, mem s1, outside s1) =
              code_gettimeofday E (libc_gettimeofday s1) x y (mem s, outside s)"
    by blast
  with r have "r = r0" by (simp add: ucast_scast_int)
  with c s' show ?thesis by auto
qed


text \<open>Runs.\<close>

lemma final_Nil: "final s [] = s"
  by (simp add: final_def)

lemma final_Cons: "final s ((r, s') # tr) = final s' tr"
  by (simp add: final_def)

lemma run_Cons_Inr:
  "run E (c # cs) s = Inr tr \<Longrightarrow>
     \<exists>r s' tr'. exec E c s = Inr (r, s') \<and> run E cs s' = Inr tr' \<and> tr = (r, s') # tr'"
  by (auto split: sum.splits)

lemma run_length: "run E cs s = Inr tr \<Longrightarrow> length tr = length cs"
  by (induction cs arbitrary: s tr) (auto split: sum.splits)

lemma run_append:
  "run E (cs1 @ cs2) s = Inr tr \<Longrightarrow>
     run E cs1 s = Inr (take (length cs1) tr) \<and>
     run E cs2 (final s (take (length cs1) tr)) = Inr (drop (length cs1) tr)"
proof (induction cs1 arbitrary: s tr)
  case Nil
  then show ?case by (simp add: final_Nil)
next
  case (Cons c cs1)
  from Cons.prems have "run E (c # (cs1 @ cs2)) s = Inr tr" by simp
  then obtain r s' tr' where e: "exec E c s = Inr (r, s')"
    and t: "run E (cs1 @ cs2) s' = Inr tr'" and tr: "tr = (r, s') # tr'"
    by (blast dest: run_Cons_Inr)
  from Cons.IH [OF t] e tr show ?case by (simp add: final_Cons)
qed

lemma final_append:
  "final s (tr1 @ tr2) = final (final s tr1) tr2"
  by (simp add: final_def)

lemma run_travel:
  "run E cs s = Inr tr \<Longrightarrow> \<forall>(r, s') \<in> set tr. travel s' = travel s"
proof (induction cs arbitrary: s tr)
  case Nil
  then show ?case by simp
next
  case (Cons c cs)
  from Cons.prems obtain r s' tr' where e: "exec E c s = Inr (r, s')"
    and t: "run E cs s' = Inr tr'" and tr: "tr = (r, s') # tr'"
    by (blast dest: run_Cons_Inr)
  from Cons.IH [OF t] exec_statics(1) [OF e] tr show ?case by auto
qed

lemma run_travel_final: "run E cs s = Inr tr \<Longrightarrow> travel (final s tr) = travel s"
  using run_travel [of E cs s tr] by (cases tr rule: rev_cases) (auto simp add: final_def)



text \<open>The cache: what one call does to the function pointers and the log.\<close>

lemma exec_cache:
  assumes "exec E c s = Inr (r, s')"
  shows "case resolver c of
           None \<Rightarrow> lookups s' = lookups s \<and> libc_time s' = libc_time s \<and>
             libc_gettimeofday s' = libc_gettimeofday s \<and>
             libc_clock_gettime s' = libc_clock_gettime s
         | Some (h, n) \<Rightarrow>
             h s' \<noteq> 0 \<and>
             (if h s = 0 then h s' = dlsym_next E n \<and> lookups s' = lookups s @ [n]
              else h s' = h s \<and> lookups s' = lookups s) \<and>
             (n \<noteq> ''time'' \<longrightarrow> libc_time s' = libc_time s) \<and>
             (n \<noteq> ''gettimeofday'' \<longrightarrow> libc_gettimeofday s' = libc_gettimeofday s) \<and>
             (n \<noteq> ''clock_gettime'' \<longrightarrow> libc_clock_gettime s' = libc_clock_gettime s)"
proof (cases c)
  case (Call_time x)
  with assms obtain g s1 where g: "real_time E x s = Inr (g, s1)"
    and s': "s' = (if x = 0 then s1 else s1\<lparr>mem := store64 (mem s1) x (travel s)\<rparr>)\<lparr>auto_res := travel s\<rparr>"
    by (auto simp add: ret_def split: sum.splits dest: time_Inr(2))
  from real_time_Inr [OF g] s' Call_time show ?thesis
    by (cases "libc_time s = 0") auto
next
  case (Call_real_time x)
  with assms have g: "real_time E x s = Inr (case r of Ret_time t \<Rightarrow> t, s')"
    by (auto simp add: ret_def split: sum.splits)
  from real_time_Inr [OF g] Call_real_time show ?thesis
    by (cases "libc_time s = 0") auto
next
  case (Call_dunder_gettimeofday x y)
  with assms obtain r' where "dunder_gettimeofday E x y s = Inr (r', s')"
    by (auto simp add: ret_def split: sum.splits)
  then obtain g s1 where g: "real_gettimeofday E x y s = Inr (g, s1)"
    and s': "s' = (if r' = 0 \<and> x \<noteq> 0 then s1\<lparr>mem := store64 (mem s1) x (travel s)\<rparr> else s1)"
    by (auto dest: dunder_gettimeofday_Inr)
  from real_gettimeofday_Inr [OF g] s' Call_dunder_gettimeofday show ?thesis
    by (cases "libc_gettimeofday s = 0") auto
next
  case (Call_gettimeofday x y)
  with assms obtain r' where "dunder_gettimeofday E x y s = Inr (r', s')"
    by (auto simp add: ret_def gettimeofday_def split: sum.splits)
  then obtain g s1 where g: "real_gettimeofday E x y s = Inr (g, s1)"
    and s': "s' = (if r' = 0 \<and> x \<noteq> 0 then s1\<lparr>mem := store64 (mem s1) x (travel s)\<rparr> else s1)"
    by (auto dest: dunder_gettimeofday_Inr)
  from real_gettimeofday_Inr [OF g] s' Call_gettimeofday show ?thesis
    by (cases "libc_gettimeofday s = 0") auto
next
  case (Call_real_gettimeofday x y)
  with assms have g: "real_gettimeofday E x y s = Inr (case r of Ret_time t \<Rightarrow> t, s')"
    by (auto simp add: ret_def split: sum.splits)
  from real_gettimeofday_Inr [OF g] Call_real_gettimeofday show ?thesis
    by (cases "libc_gettimeofday s = 0") auto
next
  case (Call_clock_gettime x y)
  with assms obtain r' where g: "clock_gettime E x y s = Inr (r', s')"
    by (auto simp add: ret_def split: sum.splits)
  from clock_gettime_Inr [OF g] Call_clock_gettime show ?thesis
    by (cases "libc_clock_gettime s = 0") auto
next
  case (Host f)
  with assms show ?thesis
    by (auto split: prod.splits)
qed

lemma resolver_cases:
  "resolver c = Some (h, n) \<Longrightarrow>
     (h = libc_time \<and> n = ''time'') \<or> (h = libc_gettimeofday \<and> n = ''gettimeofday'') \<or>
     (h = libc_clock_gettime \<and> n = ''clock_gettime'')"
  by (cases c) auto

lemma cache_inv_init: "cache_inv (init_state m w)"
  by (simp add: cache_inv_def init_state_def)

lemma exec_cache_inv:
  assumes "cache_inv s" and "exec E c s = Inr (r, s')"
  shows "cache_inv s'"
proof (cases "resolver c")
  case None
  with exec_cache [OF assms(2)] assms(1) show ?thesis
    by (simp add: cache_inv_def)
next
  case (Some hn)
  obtain h n where hn: "hn = (h, n)" by (cases hn)
  from exec_cache [OF assms(2)] Some hn
  have step: "(if h s = 0 then h s' = dlsym_next E n \<and> lookups s' = lookups s @ [n]
              else h s' = h s \<and> lookups s' = lookups s)"
    and nz: "h s' \<noteq> 0"
    and o1: "n \<noteq> ''time'' \<longrightarrow> libc_time s' = libc_time s"
    and o2: "n \<noteq> ''gettimeofday'' \<longrightarrow> libc_gettimeofday s' = libc_gettimeofday s"
    and o3: "n \<noteq> ''clock_gettime'' \<longrightarrow> libc_clock_gettime s' = libc_clock_gettime s"
    by simp_all
  from Some hn consider
      (t) "h = libc_time" "n = ''time''"
    | (g) "h = libc_gettimeofday" "n = ''gettimeofday''"
    | (c) "h = libc_clock_gettime" "n = ''clock_gettime''"
    using resolver_cases by blast
  then show ?thesis
  proof cases
    case t
    with step nz o2 o3 assms(1) show ?thesis
      by (cases "libc_time s = 0") (simp_all add: cache_inv_def)
  next
    case g
    with step nz o1 o3 assms(1) show ?thesis
      by (cases "libc_gettimeofday s = 0") (simp_all add: cache_inv_def)
  next
    case c
    with step nz o1 o2 assms(1) show ?thesis
      by (cases "libc_clock_gettime s = 0") (simp_all add: cache_inv_def)
  qed
qed

lemma run_cache_inv:
  "cache_inv s \<Longrightarrow> run E cs s = Inr tr \<Longrightarrow>
     cache_inv (final s tr) \<and>
     (libc_time s \<noteq> 0 \<longrightarrow> libc_time (final s tr) = libc_time s) \<and>
     (libc_gettimeofday s \<noteq> 0 \<longrightarrow> libc_gettimeofday (final s tr) = libc_gettimeofday s) \<and>
     (libc_clock_gettime s \<noteq> 0 \<longrightarrow> libc_clock_gettime (final s tr) = libc_clock_gettime s) \<and>
     (\<exists>new. lookups (final s tr) = lookups s @ new)"
proof (induction cs arbitrary: s tr)
  case Nil
  then show ?case by (simp add: final_Nil)
next
  case (Cons c cs)
  from Cons.prems(2) obtain r s' tr' where e: "exec E c s = Inr (r, s')"
    and t: "run E cs s' = Inr tr'" and tr: "tr = (r, s') # tr'"
    by (blast dest: run_Cons_Inr)
  from exec_cache_inv [OF Cons.prems(1) e] have inv: "cache_inv s'" .
  from Cons.IH [OF inv t] exec_statics [OF e] tr show ?case
    by (auto simp add: final_Cons)
qed


lemmas shim_defs =
  time_def real_time_def call_time_def gettimeofday_def dunder_gettimeofday_def
  real_gettimeofday_def call_gettimeofday_def clock_gettime_def call_clock_gettime_def
  dlsym_def set_travel_def store_def tv_sec_ptr_def tv_subsec_addr_def ret_def
  CLOCK_REALTIME_def CLOCK_MONOTONIC_def

lemmas example_defs = libc_env_def failing_env_def fresh_def init_state_def byte_simps

lemma run_demo: "\<exists>tr. run libc_env demo fresh = Inr tr"
  by (simp add: demo_def shim_defs example_defs)

lemma travel_fresh: "travel fresh = 1661140800"
  by (simp add: fresh_def init_state_def)



text \<open>
  A failing genuine call under \<open>__gettimeofday\<close>, \<open>gettimeofday\<close> and \<open>clock_gettime\<close>:
  its non-zero result is returned as it is, with the state the genuine call left.
\<close>

lemma gettimeofday_failure_passes_through:
  assumes "dunder_gettimeofday E x y s = Inr (r, s') \<or> gettimeofday E x y s = Inr (r, s')"
    and "r \<noteq> 0"
  shows "real_gettimeofday E x y s = Inr (scast r, s')"
proof -
  from assms(1) have d: "dunder_gettimeofday E x y s = Inr (r, s')"
    by (simp add: gettimeofday_def)
  from dunder_gettimeofday_Inr [OF d] assms(2) obtain g where
    g: "real_gettimeofday E x y s = Inr (g, s')" and r: "r = ucast g"
    by auto
  from real_gettimeofday_Inr(2) [OF g] obtain r0 :: c_int where "g = scast r0" by blast
  with r have "g = scast r" by (simp add: ucast_scast_int)
  with g show ?thesis by simp
qed

lemma clock_gettime_failure_passes_through:
  assumes "clock_gettime E x y s = Inr (r, s')" and "r \<noteq> 0"
  shows "(r, mem s', outside s') =
           code_clock_gettime E (libc_clock_gettime s') x y (mem s, outside s)"
  using clock_gettime_Inr(2) [OF assms(1)] assms(2) by auto

subsection \<open>The claims\<close>



text \<open>
  C2. The claim fails for \<open>time\<close>, which never looks at the result of the genuine call.
  Where the genuine \<open>time\<close> fails, returning \<open>(time_t) -1\<close> and storing nothing,
  \<open>time(p)\<close> returns 1661140800 and stores it through \<open>p\<close>, and \<open>time(NULL)\<close> returns
  1661140800. The other interceptors test the result of the genuine call and keep the
  claim (the two lemmas on a failing genuine call above).
\<close>

theorem time_masks_failure:
  "cell_after 64 (real_time failing_env 64 fresh) = Inr (- 1, 0) \<and>
   cell_after 64 (time failing_env 64 fresh) = Inr (1661140800, 1661140800) \<and>
   cell_after 64 (real_time failing_env 0 fresh) = Inr (- 1, 0) \<and>
   cell_after 64 (time failing_env 0 fresh) = Inr (1661140800, 0)"
  by (simp add: cell_after_def shim_defs example_defs)

text \<open>
  C3. For every clock other than \<open>CLOCK_REALTIME\<close>, \<open>clock_gettime\<close> is the genuine
  \<open>clock_gettime\<close> called through the cached pointer (resolved first when it is still
  null): the result code, the whole memory, so both fields of the output record, and the
  outside world are what the genuine code produced.
\<close>

theorem clock_gettime_other_clock_passes_through:
  assumes "x \<noteq> CLOCK_REALTIME"
  shows "clock_gettime E x y s =
           (if libc_clock_gettime s \<noteq> 0
            then call_clock_gettime E (libc_clock_gettime s) x y s
            else call_clock_gettime E (dlsym_next E ''clock_gettime'') x y
                   (s\<lparr>lookups := lookups s @ [''clock_gettime''],
                      libc_clock_gettime := dlsym_next E ''clock_gettime''\<rparr>)) \<and>
         (\<forall>r s'. clock_gettime E x y s = Inr (r, s') \<longrightarrow>
            (r, mem s', outside s') =
              code_clock_gettime E (libc_clock_gettime s') x y (mem s, outside s))"
proof
  show "clock_gettime E x y s =
           (if libc_clock_gettime s \<noteq> 0
            then call_clock_gettime E (libc_clock_gettime s) x y s
            else call_clock_gettime E (dlsym_next E ''clock_gettime'') x y
                   (s\<lparr>lookups := lookups s @ [''clock_gettime''],
                      libc_clock_gettime := dlsym_next E ''clock_gettime''\<rparr>))"
  proof (cases "libc_clock_gettime s = 0")
    case True
    with assms show ?thesis
      by (simp add: clock_gettime_def dlsym_def Let_def split: sum.splits)
  next
    case False
    with assms show ?thesis
      by (simp add: clock_gettime_def Let_def split: sum.splits)
  qed
next
  show "\<forall>r s'. clock_gettime E x y s = Inr (r, s') \<longrightarrow>
            (r, mem s', outside s') =
              code_clock_gettime E (libc_clock_gettime s') x y (mem s, outside s)"
  proof (intro allI impI)
    fix r s' assume c: "clock_gettime E x y s = Inr (r, s')"
    from clock_gettime_Inr(2) [OF c] assms
    show "(r, mem s', outside s') =
            code_clock_gettime E (libc_clock_gettime s') x y (mem s, outside s)"
      by auto
  qed
qed

theorem clock_gettime_other_clock_passes_through_witness:
  "CLOCK_MONOTONIC \<noteq> CLOCK_REALTIME \<and>
   cell_after 96 (clock_gettime libc_env CLOCK_MONOTONIC 96 fresh) = Inr (0, 77) \<and>
   cell_after 104 (clock_gettime libc_env CLOCK_MONOTONIC 96 fresh) = Inr (0, 5) \<and>
   clock_gettime libc_env CLOCK_MONOTONIC 96 fresh =
     call_clock_gettime libc_env 12288 CLOCK_MONOTONIC 96
       (fresh\<lparr>lookups := [''clock_gettime''], libc_clock_gettime := 12288\<rparr>)"
proof -
  have h: "CLOCK_MONOTONIC \<noteq> CLOCK_REALTIME"
    by (simp add: CLOCK_MONOTONIC_def CLOCK_REALTIME_def)
  from clock_gettime_other_clock_passes_through [OF h, of libc_env 96 fresh]
  have "clock_gettime libc_env CLOCK_MONOTONIC 96 fresh =
     call_clock_gettime libc_env 12288 CLOCK_MONOTONIC 96
       (fresh\<lparr>lookups := [''clock_gettime''], libc_clock_gettime := 12288\<rparr>)"
    by (simp add: example_defs)
  with h show ?thesis
    by (simp add: cell_after_def call_clock_gettime_def CLOCK_MONOTONIC_def example_defs)
qed

text \<open>
  C4. After a successful \<open>__gettimeofday\<close> or \<open>gettimeofday\<close>, and after a successful
  \<open>clock_gettime\<close> for \<open>CLOCK_REALTIME\<close>, every byte of memory outside the eight bytes of
  the \<open>tv_sec\<close> of the output record holds what the genuine function left there, and
  \<open>tv_usec\<close> or \<open>tv_nsec\<close>, the object at offset 8, reads as the genuine function wrote
  it.
\<close>

theorem subsecond_field_preserved:
  "(dunder_gettimeofday E x y s = Inr (0, s') \<longrightarrow>
      (\<exists>m w. code_gettimeofday E (libc_gettimeofday s') x y (mem s, outside s) = (0, m, w) \<and>
         load64 (mem s') (tv_subsec_addr x) = load64 m (tv_subsec_addr x) \<and>
         (\<forall>b. 8 \<le> unat (b - x) \<longrightarrow> mem s' b = m b))) \<and>
   (gettimeofday E x y s = Inr (0, s') \<longrightarrow>
      (\<exists>m w. code_gettimeofday E (libc_gettimeofday s') x y (mem s, outside s) = (0, m, w) \<and>
         load64 (mem s') (tv_subsec_addr x) = load64 m (tv_subsec_addr x) \<and>
         (\<forall>b. 8 \<le> unat (b - x) \<longrightarrow> mem s' b = m b))) \<and>
   (clock_gettime E CLOCK_REALTIME z s = Inr (0, s'') \<longrightarrow>
      (\<exists>m w. code_clock_gettime E (libc_clock_gettime s'') CLOCK_REALTIME z (mem s, outside s)
                = (0, m, w) \<and>
         load64 (mem s'') (tv_subsec_addr z) = load64 m (tv_subsec_addr z) \<and>
         (\<forall>b. 8 \<le> unat (b - z) \<longrightarrow> mem s'' b = m b)))"
proof -
  have g: "\<exists>m w. code_gettimeofday E (libc_gettimeofday s') x y (mem s, outside s) = (0, m, w) \<and>
         load64 (mem s') (tv_subsec_addr x) = load64 m (tv_subsec_addr x) \<and>
         (\<forall>b. 8 \<le> unat (b - x) \<longrightarrow> mem s' b = m b)"
    if d: "dunder_gettimeofday E x y s = Inr (0, s')"
  proof -
    from dunder_gettimeofday_code [OF d] obtain m w where
      c: "(0, m, w) = code_gettimeofday E (libc_gettimeofday s') x y (mem s, outside s)"
      and m: "mem s' = (if x \<noteq> 0 then store64 m x (travel s) else m)"
      by auto
    from m have "load64 (mem s') (tv_subsec_addr x) = load64 m (tv_subsec_addr x)"
      and "\<forall>b. 8 \<le> unat (b - x) \<longrightarrow> mem s' b = m b"
      by (simp_all add: load64_store64_subsec store64_outside)
    with c [symmetric] show ?thesis by blast
  qed
  have c: "\<exists>m w. code_clock_gettime E (libc_clock_gettime s'') CLOCK_REALTIME z (mem s, outside s)
                = (0, m, w) \<and>
         load64 (mem s'') (tv_subsec_addr z) = load64 m (tv_subsec_addr z) \<and>
         (\<forall>b. 8 \<le> unat (b - z) \<longrightarrow> mem s'' b = m b)"
    if d: "clock_gettime E CLOCK_REALTIME z s = Inr (0, s'')"
  proof -
    from clock_gettime_Inr(2) [OF d] obtain m w where
      c: "(0, m, w) =
            code_clock_gettime E (libc_clock_gettime s'') CLOCK_REALTIME z (mem s, outside s)"
      and m: "mem s'' = (if z \<noteq> 0 then store64 m z (travel s) else m)"
      by auto
    from m have "load64 (mem s'') (tv_subsec_addr z) = load64 m (tv_subsec_addr z)"
      and "\<forall>b. 8 \<le> unat (b - z) \<longrightarrow> mem s'' b = m b"
      by (simp_all add: load64_store64_subsec store64_outside)
    with c [symmetric] show ?thesis by blast
  qed
  from g c show ?thesis by (simp add: gettimeofday_def)
qed

theorem subsecond_field_preserved_witness:
  "\<exists>s1 s2 s3.
     dunder_gettimeofday libc_env 160 192 fresh = Inr (0, s1) \<and>
     code_gettimeofday libc_env (libc_gettimeofday s1) 160 192 (mem fresh, outside fresh) =
       (0, store64 (store64 (store64 (\<lambda>a. 0) 160 1700000000) 168 999999) 192 4294967236,
        1700000001) \<and>
     load64 (mem s1) 160 = 1661140800 \<and> load64 (mem s1) 168 = 999999 \<and>
     gettimeofday libc_env 160 192 fresh = Inr (0, s2) \<and> load64 (mem s2) 168 = 999999 \<and>
     clock_gettime libc_env CLOCK_REALTIME 64 fresh = Inr (0, s3) \<and>
     load64 (mem s3) 64 = 1661140800 \<and> load64 (mem s3) 72 = 123456789"
proof -
  obtain s1 where d: "dunder_gettimeofday libc_env 160 192 fresh = Inr (0, s1)"
    and s1: "libc_gettimeofday s1 = 8192" "load64 (mem s1) 160 = 1661140800"
    by (simp add: shim_defs example_defs)
  obtain s3 where c: "clock_gettime libc_env CLOCK_REALTIME 64 fresh = Inr (0, s3)"
    and s3: "libc_clock_gettime s3 = 12288" "load64 (mem s3) 64 = 1661140800"
    by (simp add: shim_defs example_defs)
  have g: "gettimeofday libc_env 160 192 fresh = Inr (0, s1)"
    using d by (simp add: gettimeofday_def)
  have k: "code_gettimeofday libc_env 8192 160 192 (mem fresh, outside fresh) =
       (0, store64 (store64 (store64 (\<lambda>a. 0) 160 1700000000) 168 999999) 192 4294967236,
        1700000001)"
    by (simp add: libc_env_def fresh_def init_state_def)
  have k': "code_clock_gettime libc_env 12288 CLOCK_REALTIME 64 (mem fresh, outside fresh) =
       (0, store64 (store64 (\<lambda>a. 0) 64 1700000000) 72 123456789, 1700000001)"
    by (simp add: libc_env_def fresh_def init_state_def CLOCK_REALTIME_def)
  from subsecond_field_preserved [of libc_env 160 192 fresh s1 64 s3] d g c
  have "load64 (mem s1) (tv_subsec_addr 160) =
          load64 (store64 (store64 (store64 (\<lambda>a. 0) 160 1700000000) 168 999999) 192 4294967236)
            (tv_subsec_addr 160)"
    and "load64 (mem s3) (tv_subsec_addr 64) =
          load64 (store64 (store64 (\<lambda>a. 0) 64 1700000000) 72 123456789) (tv_subsec_addr 64)"
    by (simp_all add: s1 s3 k k')
  then have "load64 (mem s1) 168 = 999999" and "load64 (mem s3) 72 = 123456789"
    by (simp_all add: tv_subsec_addr_def byte_simps)
  with d g c s1 s3 k show ?thesis by auto
qed

text \<open>
  C5. A null output pointer is never stored through (a store through \<open>NULL\<close> is the
  fault \<open>Segfault\<close> of \<open>store\<close>): \<open>set_travel\<close> does nothing for it; \<open>time(NULL)\<close>
  returns \<open>travel\<close> and leaves memory as the genuine \<open>time\<close> left it, and faults only
  when the genuine \<open>time\<close> cannot be resolved; \<open>__gettimeofday\<close>, \<open>gettimeofday\<close> and
  \<open>clock_gettime\<close> with a null record return what the genuine call returned and leave
  the state it left.
\<close>

theorem null_output_pointer_not_dereferenced:
  "set_travel (Addr 0) s = Inr s \<and>
   (real_time E 0 s = Inr (g, s1) \<longrightarrow>
      time E 0 s = Inr (travel s, s1\<lparr>auto_res := travel s\<rparr>)) \<and>
   (time E 0 s = Inl e \<longrightarrow> real_time E 0 s = Inl e) \<and>
   (real_gettimeofday E 0 y s = Inr (g', s2) \<longrightarrow>
      dunder_gettimeofday E 0 y s = Inr (ucast g', s2) \<and>
      gettimeofday E 0 y s = Inr (ucast g', s2)) \<and>
   (dunder_gettimeofday E 0 y s = Inl e \<longrightarrow> real_gettimeofday E 0 y s = Inl e) \<and>
   (clock_gettime E c 0 s = Inr (r, s3) \<longrightarrow>
      (r, mem s3, outside s3) =
        code_clock_gettime E (libc_clock_gettime s3) c 0 (mem s, outside s)) \<and>
   (clock_gettime E c 0 s = Inl e \<longrightarrow>
      libc_clock_gettime s = 0 \<and> dlsym_next E ''clock_gettime'' = 0)"
proof (intro conjI impI)
  show "set_travel (Addr 0) s = Inr s"
    by (simp add: set_travel_def)
next
  assume g: "real_time E 0 s = Inr (g, s1)"
  with real_time_Inr(3) [OF g]
  show "time E 0 s = Inr (travel s, s1\<lparr>auto_res := travel s\<rparr>)"
    by (simp add: time_unfold)
next
  assume "time E 0 s = Inl e"
  then show "real_time E 0 s = Inl e"
    by (simp add: time_unfold split: sum.splits prod.splits)
next
  assume g: "real_gettimeofday E 0 y s = Inr (g', s2)"
  then show "dunder_gettimeofday E 0 y s = Inr (ucast g', s2)"
    by (simp add: dunder_gettimeofday_unfold)
  then show "gettimeofday E 0 y s = Inr (ucast g', s2)"
    by (simp add: gettimeofday_def)
next
  assume "dunder_gettimeofday E 0 y s = Inl e"
  then show "real_gettimeofday E 0 y s = Inl e"
    by (simp add: dunder_gettimeofday_unfold split: sum.splits prod.splits if_splits)
next
  assume c: "clock_gettime E c 0 s = Inr (r, s3)"
  from clock_gettime_Inr(2) [OF c]
  show "(r, mem s3, outside s3) =
          code_clock_gettime E (libc_clock_gettime s3) c 0 (mem s, outside s)"
    by auto
next
  assume c: "clock_gettime E c 0 s = Inl e"
  then show "libc_clock_gettime s = 0" and "dlsym_next E ''clock_gettime'' = 0"
    by (simp_all add: clock_gettime_Inl)
qed

theorem null_output_pointer_not_dereferenced_witness:
  "\<exists>s1 s2 s3.
     store (Addr 0) 1661140800 fresh = Inl Segfault \<and>
     real_time libc_env 0 fresh = Inr (1700000000, s1) \<and>
     time libc_env 0 fresh = Inr (1661140800, s1\<lparr>auto_res := 1661140800\<rparr>) \<and>
     real_gettimeofday libc_env 0 0 fresh = Inr (0, s2) \<and>
     dunder_gettimeofday libc_env 0 0 fresh = Inr (0, s2) \<and>
     gettimeofday libc_env 0 0 fresh = Inr (0, s2) \<and>
     clock_gettime libc_env CLOCK_REALTIME 0 fresh = Inr (0, s3) \<and> mem s3 = mem fresh"
proof -
  obtain s1 where g: "real_time libc_env 0 fresh = Inr (1700000000, s1)"
    by (simp add: shim_defs example_defs)
  obtain s2 where d: "real_gettimeofday libc_env 0 0 fresh = Inr (0, s2)"
    by (simp add: shim_defs example_defs)
  obtain s3 where c: "clock_gettime libc_env CLOCK_REALTIME 0 fresh = Inr (0, s3)"
    and s3: "libc_clock_gettime s3 = 12288"
    by (simp add: shim_defs example_defs)
  have f: "store (Addr 0) 1661140800 fresh = Inl Segfault"
    by (simp add: store_def)
  from null_output_pointer_not_dereferenced
    [of fresh libc_env 1700000000 s1 _ 0 0 s2 CLOCK_REALTIME 0 s3] g d c
  have "time libc_env 0 fresh = Inr (1661140800, s1\<lparr>auto_res := 1661140800\<rparr>)"
    and "dunder_gettimeofday libc_env 0 0 fresh = Inr (0, s2)"
    and "gettimeofday libc_env 0 0 fresh = Inr (0, s2)"
    and "(0, mem s3, outside s3) =
           code_clock_gettime libc_env 12288 CLOCK_REALTIME 0 (mem fresh, outside fresh)"
    by (simp_all add: travel_fresh s3)
  moreover from this(4) have "mem s3 = mem fresh"
    by (simp add: example_defs CLOCK_REALTIME_def)
  ultimately show ?thesis using f g d c by blast
qed

text \<open>
  C6. Every call of \<open>time\<close> that returns (it does whenever the genuine \<open>time\<close> was
  found) returns \<open>travel\<close>, and when its argument is not null the object it points to holds
  \<open>travel\<close> as well. With the value \<open>travel\<close> is initialised to, after any run of the
  process, that is 1661140800 whatever the real clock says.
\<close>

theorem time_returns_travel:
  "(real_time E x s = Inr (g, s1) \<longrightarrow>
      (\<exists>s'. time E x s = Inr (travel s, s') \<and> (x \<noteq> 0 \<longrightarrow> load64 (mem s') x = travel s))) \<and>
   (time E x s = Inr (r, s') \<longrightarrow> r = travel s \<and> (x \<noteq> 0 \<longrightarrow> load64 (mem s') x = travel s)) \<and>
   (run E cs (init_state m w) = Inr tr \<longrightarrow>
      time E x (final (init_state m w) tr) = Inr (r', s'') \<longrightarrow>
      r' = 1661140800 \<and> (x \<noteq> 0 \<longrightarrow> load64 (mem s'') x = 1661140800))"
proof (intro conjI impI)
  assume g: "real_time E x s = Inr (g, s1)"
  with real_time_Inr(3) [OF g]
  show "\<exists>s'. time E x s = Inr (travel s, s') \<and> (x \<noteq> 0 \<longrightarrow> load64 (mem s') x = travel s)"
    by (simp add: time_unfold load64_store64_same)
next
  assume t: "time E x s = Inr (r, s')"
  from time_Inr(1) [OF t] show "r = travel s" .
  assume "x \<noteq> 0"
  with time_Inr(2) [OF t] show "load64 (mem s') x = travel s"
    by (auto simp add: load64_store64_same)
next
  assume r: "run E cs (init_state m w) = Inr tr"
    and t: "time E x (final (init_state m w) tr) = Inr (r', s'')"
  from run_travel_final [OF r] have tr: "travel (final (init_state m w) tr) = 1661140800"
    by (simp add: init_state_def)
  from time_Inr(1) [OF t] tr show "r' = 1661140800" by simp
  assume "x \<noteq> 0"
  with time_Inr(2) [OF t] tr show "load64 (mem s'') x = 1661140800"
    by (auto simp add: load64_store64_same)
qed

theorem time_returns_travel_witness:
  "\<exists>tr s1 s' s''.
     real_time libc_env 256 fresh = Inr (1700000000, s1) \<and>
     time libc_env 256 fresh = Inr (1661140800, s') \<and> load64 (mem s') 256 = 1661140800 \<and>
     run libc_env demo (init_state (\<lambda>a. 0) 1700000000) = Inr tr \<and>
     time libc_env 256 (final (init_state (\<lambda>a. 0) 1700000000) tr) = Inr (1661140800, s'') \<and>
     load64 (mem s'') 256 = 1661140800"
proof -
  obtain s1 where g: "real_time libc_env 256 fresh = Inr (1700000000, s1)"
    by (simp add: shim_defs example_defs)
  obtain tr where r: "run libc_env demo (init_state (\<lambda>a. 0) 1700000000) = Inr tr"
    using run_demo by (auto simp add: fresh_def)
  obtain r' s'' where
    t: "time libc_env 256 (final (init_state (\<lambda>a. 0) 1700000000) tr) = Inr (r', s'')"
    using r by (auto simp add: demo_def final_def shim_defs example_defs)
  from time_returns_travel [of libc_env 256 fresh 1700000000 s1 "travel fresh" _ demo
      "\<lambda>a. 0" 1700000000 tr r' s''] g r t
  show ?thesis by (auto simp add: travel_fresh)
qed

text \<open>
  C7. Each call resolves through one static pointer and one symbol name (\<open>resolver\<close>).
  A call that returns leaves its pointer set; when the pointer was null it is the result
  of one \<open>dlsym\<close> lookup of that name, added to the log; when it was set, the pointer and
  the log stay as they were. In a run from the loaded state no name is looked up twice,
  the log only grows, and a pointer that is set after the first part of the run is the
  same at its end.
\<close>

theorem resolver_looks_up_once:
  "(exec E c s = Inr (r, s') \<longrightarrow> resolver c = Some (h, n) \<longrightarrow>
      h s' \<noteq> 0 \<and>
      (h s = 0 \<longrightarrow> h s' = dlsym_next E n \<and> lookups s' = lookups s @ [n]) \<and>
      (h s \<noteq> 0 \<longrightarrow> h s' = h s \<and> lookups s' = lookups s)) \<and>
   (run E (cs1 @ cs2) (init_state m w) = Inr tr \<longrightarrow>
      distinct (lookups (final (init_state m w) tr)) \<and>
      (\<exists>new. lookups (final (init_state m w) tr) =
               lookups (final (init_state m w) (take (length cs1) tr)) @ new) \<and>
      (libc_time (final (init_state m w) (take (length cs1) tr)) \<noteq> 0 \<longrightarrow>
         libc_time (final (init_state m w) tr) =
           libc_time (final (init_state m w) (take (length cs1) tr))) \<and>
      (libc_gettimeofday (final (init_state m w) (take (length cs1) tr)) \<noteq> 0 \<longrightarrow>
         libc_gettimeofday (final (init_state m w) tr) =
           libc_gettimeofday (final (init_state m w) (take (length cs1) tr))) \<and>
      (libc_clock_gettime (final (init_state m w) (take (length cs1) tr)) \<noteq> 0 \<longrightarrow>
         libc_clock_gettime (final (init_state m w) tr) =
           libc_clock_gettime (final (init_state m w) (take (length cs1) tr))))"
proof (rule conjI)
  show "exec E c s = Inr (r, s') \<longrightarrow> resolver c = Some (h, n) \<longrightarrow>
      h s' \<noteq> 0 \<and>
      (h s = 0 \<longrightarrow> h s' = dlsym_next E n \<and> lookups s' = lookups s @ [n]) \<and>
      (h s \<noteq> 0 \<longrightarrow> h s' = h s \<and> lookups s' = lookups s)"
  proof (intro impI)
    assume e: "exec E c s = Inr (r, s')" and res: "resolver c = Some (h, n)"
    from exec_cache [OF e] res
    show "h s' \<noteq> 0 \<and>
      (h s = 0 \<longrightarrow> h s' = dlsym_next E n \<and> lookups s' = lookups s @ [n]) \<and>
      (h s \<noteq> 0 \<longrightarrow> h s' = h s \<and> lookups s' = lookups s)"
      by (cases "h s = 0") auto
  qed
next
  let ?i = "init_state m w"
  let ?mid = "final ?i (take (length cs1) tr)"
  show "run E (cs1 @ cs2) ?i = Inr tr \<longrightarrow>
      distinct (lookups (final ?i tr)) \<and>
      (\<exists>new. lookups (final ?i tr) = lookups ?mid @ new) \<and>
      (libc_time ?mid \<noteq> 0 \<longrightarrow> libc_time (final ?i tr) = libc_time ?mid) \<and>
      (libc_gettimeofday ?mid \<noteq> 0 \<longrightarrow>
         libc_gettimeofday (final ?i tr) = libc_gettimeofday ?mid) \<and>
      (libc_clock_gettime ?mid \<noteq> 0 \<longrightarrow>
         libc_clock_gettime (final ?i tr) = libc_clock_gettime ?mid)"
  proof
    assume r: "run E (cs1 @ cs2) ?i = Inr tr"
    from run_append [OF r] have r1: "run E cs1 ?i = Inr (take (length cs1) tr)"
      and r2: "run E cs2 ?mid = Inr (drop (length cs1) tr)"
      by simp_all
    from run_cache_inv [OF cache_inv_init r1] have inv: "cache_inv ?mid" by simp
    have "final ?i tr = final ?i (take (length cs1) tr @ drop (length cs1) tr)"
      by simp
    also have "\<dots> = final ?mid (drop (length cs1) tr)"
      by (rule final_append)
    finally have fin: "final ?i tr = final ?mid (drop (length cs1) tr)" .
    from run_cache_inv [OF inv r2] fin
    show "distinct (lookups (final ?i tr)) \<and>
      (\<exists>new. lookups (final ?i tr) = lookups ?mid @ new) \<and>
      (libc_time ?mid \<noteq> 0 \<longrightarrow> libc_time (final ?i tr) = libc_time ?mid) \<and>
      (libc_gettimeofday ?mid \<noteq> 0 \<longrightarrow>
         libc_gettimeofday (final ?i tr) = libc_gettimeofday ?mid) \<and>
      (libc_clock_gettime ?mid \<noteq> 0 \<longrightarrow>
         libc_clock_gettime (final ?i tr) = libc_clock_gettime ?mid)"
      by (simp add: cache_inv_def)
  qed
qed

theorem resolver_looks_up_once_witness:
  "\<exists>s' s'' tr.
     resolver (Call_time 0 :: nat call) = Some (libc_time, ''time'') \<and>
     libc_time fresh = 0 \<and>
     exec libc_env (Call_time 0) fresh = Inr (Ret_time 1661140800, s') \<and>
     libc_time s' = dlsym_next libc_env ''time'' \<and> libc_time s' = 4096 \<and>
     lookups s' = [''time''] \<and>
     exec libc_env (Call_time 0) s' = Inr (Ret_time 1661140800, s'') \<and>
     libc_time s'' = 4096 \<and> lookups s'' = [''time''] \<and>
     run libc_env ([Call_time 0, Call_clock_gettime CLOCK_REALTIME 64] @
                   [Call_gettimeofday 128 0, Call_time 256, Call_clock_gettime CLOCK_MONOTONIC 96])
       (init_state (\<lambda>a. 0) 1700000000) = Inr tr \<and>
     lookups (final (init_state (\<lambda>a. 0) 1700000000) (take 2 tr)) = [''time'', ''clock_gettime''] \<and>
     lookups (final (init_state (\<lambda>a. 0) 1700000000) tr) =
       [''time'', ''clock_gettime'', ''gettimeofday''] \<and>
     distinct (lookups (final (init_state (\<lambda>a. 0) 1700000000) tr)) \<and>
     libc_time (final (init_state (\<lambda>a. 0) 1700000000) tr) = 4096"
proof -
  let ?i = "init_state (\<lambda>a. 0) (1700000000 :: nat)"
  let ?cs1 = "[Call_time 0, Call_clock_gettime CLOCK_REALTIME 64] :: nat call list"
  let ?cs2 = "[Call_gettimeofday 128 0, Call_time 256, Call_clock_gettime CLOCK_MONOTONIC 96]
                :: nat call list"
  have res: "resolver (Call_time 0 :: nat call) = Some (libc_time, ''time'')"
    by simp
  have z: "libc_time fresh = 0"
    by (simp add: example_defs)
  obtain s' where e1: "exec libc_env (Call_time 0) fresh = Inr (Ret_time 1661140800, s')"
    by (simp add: shim_defs example_defs)
  from resolver_looks_up_once [of libc_env "Call_time 0" fresh "Ret_time 1661140800" s'
      libc_time "''time''" "[]" "[]"] e1 res z
  have h1: "libc_time s' = dlsym_next libc_env ''time''" and l1: "lookups s' = [''time'']"
    and nz: "libc_time s' \<noteq> 0"
    by (simp_all add: example_defs)
  from h1 have h1': "libc_time s' = 4096"
    by (simp add: example_defs)
  obtain r'' s'' where e2: "exec libc_env (Call_time 0) s' = Inr (r'', s'')"
    using e1 by (auto simp add: shim_defs example_defs)
  from e2 have r'': "r'' = Ret_time (travel s')"
    by (auto simp add: ret_def split: sum.splits dest: time_Inr(1))
  from exec_statics(1) [OF e1] have "travel s' = 1661140800"
    by (simp add: travel_fresh)
  with r'' e2 have e2': "exec libc_env (Call_time 0) s' = Inr (Ret_time 1661140800, s'')"
    by simp
  from resolver_looks_up_once [of libc_env "Call_time 0" s' "Ret_time 1661140800" s''
      libc_time "''time''" "[]" "[]"] e2' res nz
  have h2: "libc_time s'' = 4096" and l2: "lookups s'' = [''time'']"
    by (simp_all add: h1' l1)
  obtain tr where r: "run libc_env (?cs1 @ ?cs2) ?i = Inr tr"
    and m: "lookups (final ?i (take 2 tr)) = [''time'', ''clock_gettime'']"
    and f: "lookups (final ?i tr) = [''time'', ''clock_gettime'', ''gettimeofday'']"
    and t: "libc_time (final ?i tr) = 4096"
    by (simp add: final_def shim_defs example_defs)
  from resolver_looks_up_once [of libc_env _ _ _ _ _ _ ?cs1 ?cs2 "\<lambda>a. 0" 1700000000 tr] r
  have d: "distinct (lookups (final ?i tr))"
    by blast
  from res z e1 h1 h1' l1 e2' h2 l2 r m f d t show ?thesis
    by blast
qed

text \<open>
  C8. No call changes \<open>travel\<close>: in every run of the process, from any state, the state
  after each call holds the \<open>travel\<close> the run started with; from the loaded state that
  is 1661140800.
\<close>

theorem travel_never_mutated:
  "(run E cs s = Inr tr \<longrightarrow>
      (\<forall>(r, s') \<in> set tr. travel s' = travel s) \<and> travel (final s tr) = travel s) \<and>
   (run E cs (init_state m w) = Inr tr' \<longrightarrow> (\<forall>(r, s') \<in> set tr'. travel s' = 1661140800))"
proof (intro conjI impI)
  assume r: "run E cs s = Inr tr"
  from run_travel [OF r] show "\<forall>(r, s') \<in> set tr. travel s' = travel s" .
  from run_travel_final [OF r] show "travel (final s tr) = travel s" .
next
  assume r: "run E cs (init_state m w) = Inr tr'"
  from run_travel [OF r] show "\<forall>(r, s') \<in> set tr'. travel s' = 1661140800"
    by (simp add: init_state_def)
qed

theorem travel_never_mutated_witness:
  "\<exists>tr. run libc_env demo fresh = Inr tr \<and> length tr = 7 \<and>
     list_all (\<lambda>(r, s'). travel s' = 1661140800) tr \<and> travel (final fresh tr) = 1661140800"
proof -
  obtain tr where r: "run libc_env demo fresh = Inr tr"
    using run_demo by blast
  from run_length [OF r] have "length tr = 7" by (simp add: demo_def)
  with travel_never_mutated [of libc_env demo fresh tr] r show ?thesis
    by (auto simp add: travel_fresh list_all_iff)
qed

text \<open>
  C9. \<open>gettimeofday\<close> is \<open>__gettimeofday\<close>: for every pair of arguments and every state
  the two return the same result and leave the same state, so the same writes to the
  output record.
\<close>

theorem gettimeofday_is_dunder_gettimeofday:
  "gettimeofday E x y s = dunder_gettimeofday E x y s"
  by (simp add: gettimeofday_def)

theorem gettimeofday_is_dunder_gettimeofday_witness:
  "gettimeofday libc_env 128 0 fresh = dunder_gettimeofday libc_env 128 0 fresh \<and>
   cell_after 128 (gettimeofday libc_env 128 0 fresh) = Inr (0, 1661140800)"
  using gettimeofday_is_dunder_gettimeofday [of libc_env 128 0 fresh]
  by (simp add: cell_after_def shim_defs example_defs)




end
